theory Spec2Isabelle
  imports Main "HOL-Library.Word" "HOL-Library.Char_ord" "HOL-Library.List_Lexorder"
begin

unbundle bit_operations_syntax

section \<open>Block states: property hashing (state.go)\<close>

type_synonym byte = "8 word"

text \<open>An \<^verbatim>\<open>int32\<close> is its 32-bit pattern; \<^const>\<open>sint\<close> reads the signed value.\<close>

type_synonym int32 = "32 word"

text \<open>
  A Go \<^verbatim>\<open>string\<close> is a sequence of bytes. Names and property keys are modelled as
  \<^typ>\<open>string\<close> (a list of 8-bit characters), compared bytewise and lexicographically as
  Go's \<^verbatim>\<open><\<close> on strings does. The digest built by \<^verbatim>\<open>strings.Builder\<close> is kept as the
  list of bytes written to it.
\<close>

text \<open>
  The dynamic type of a value stored in \<^verbatim>\<open>map[string]interface{}\<close>. The four cases of
  the type switch have a constructor each; \<open>POther t\<close> is a value of any other dynamic
  type, \<open>t\<close> being what \<^verbatim>\<open>%T\<close> prints for it.
\<close>

datatype property =
    PBool bool
  | PUint8 byte
  | PInt32 int32
  | PString string
  | POther string

text \<open>
  A non-nil property map is the list of its entries in the order in which \<^verbatim>\<open>range\<close>
  visits them (Go leaves that order unspecified); the keys of a map are distinct.
  \<open>None\<close> is the nil map.
\<close>

type_synonym properties = "(string \<times> property) list option"

record blockState =
  Name :: string
  Properties :: properties
  Version :: int32

text \<open>
  The values handed to \<^verbatim>\<open>panic\<close>. Both are strings made by \<^verbatim>\<open>fmt.Sprintf\<close>; the model
  keeps the format's arguments instead of the formatted text.
\<close>

datatype panic =
    InvalidBlockPropertyType string string
  | SameStateTwice blockState

text \<open>
  \<^verbatim>\<open>*(*[4]byte)(unsafe.Pointer(&v))\<close>: the four bytes of the int32 in memory order. The
  model fixes the byte order of the little-endian targets of the program (amd64, arm64):
  lowest-order byte first.
\<close>

definition int32Bytes :: "int32 \<Rightarrow> byte list" where
  "int32Bytes v = [ucast v, ucast (drop_bit 8 v), ucast (drop_bit 16 v), ucast (drop_bit 24 v)]"

text \<open>
  The loop over the sorted keys, with the builder's contents \<open>b\<close> passed along. A key
  absent from the map would read as the nil interface value, which the switch sends to its
  default case.
\<close>

fun writeProperties :: "(string \<times> property) list \<Rightarrow> string list \<Rightarrow> byte list \<Rightarrow> panic + byte list" where
  "writeProperties props [] b = Inr b"
| "writeProperties props (k # ks) b =
     (case map_of props k of
        Some (PBool v) \<Rightarrow> writeProperties props ks (b @ [if v then 1 else 0])
      | Some (PUint8 v) \<Rightarrow> writeProperties props ks (b @ [v])
      | Some (PInt32 v) \<Rightarrow> writeProperties props ks (b @ int32Bytes v)
      | Some (PString v) \<Rightarrow> writeProperties props ks (b @ map of_char v)
      | Some (POther t) \<Rightarrow> Inl (InvalidBlockPropertyType t k)
      | None \<Rightarrow> Inl (InvalidBlockPropertyType ''<nil>'' k))"

definition hashProperties :: "properties \<Rightarrow> panic + byte list" where
  "hashProperties properties =
     (case properties of
        None \<Rightarrow> Inr []
      | Some props \<Rightarrow> writeProperties props (sort (map fst props)) [])"



section \<open>Block states: the registry (state.go)\<close>

text \<open>\<^verbatim>\<open>stateHash{name, properties}\<close>: the block's name and the digest of its properties.\<close>

type_synonym stateHash = "string \<times> byte list"

text \<open>
  The package-level variables that \<^verbatim>\<open>registerBlockState\<close> reads and writes, together with
  the two tables of the chunk package it extends. \<open>blocks\<close> holds the state wrapped by each
  \<^verbatim>\<open>unknownBlock\<close>; a runtime ID is a \<^verbatim>\<open>uint32\<close>.
\<close>

record registry =
  blocks :: "blockState list"
  stateRuntimeIDs :: "stateHash \<rightharpoonup> 32 word"
  nbtBlocks :: "bool list"
  randomTickBlocks :: "bool list"
  airRID :: "32 word"
  FilteringBlocks :: "byte list"
  LightBlocks :: "byte list"

text \<open>
  The variables as they are before \<^verbatim>\<open>init\<close> runs. The two tables of the chunk package
  are initialised elsewhere and are left as parameters.
\<close>

definition startup :: "byte list \<Rightarrow> byte list \<Rightarrow> registry" where
  "startup fb lb =
     \<lparr>blocks = [], stateRuntimeIDs = Map.empty, nbtBlocks = [], randomTickBlocks = [],
      airRID = 0, FilteringBlocks = fb, LightBlocks = lb\<rparr>"

text \<open>
  A call either returns (\<open>None\<close>) or panics (\<open>Some p\<close>); in both cases the variables keep
  what was written to them before.
\<close>

definition registerBlockState :: "blockState \<Rightarrow> registry \<Rightarrow> panic option \<times> registry" where
  "registerBlockState s reg =
     (case hashProperties (Properties s) of
        Inl p \<Rightarrow> (Some p, reg)
      | Inr d \<Rightarrow>
          (let h = (Name s, d) in
           if stateRuntimeIDs reg h \<noteq> None then (Some (SameStateTwice s), reg)
           else
             (let rid = (of_nat (length (blocks reg)) :: 32 word) in
              (None,
               reg\<lparr>airRID := (if Name s = ''minecraft:air'' then rid else airRID reg),
                   stateRuntimeIDs := (stateRuntimeIDs reg)(h \<mapsto> rid),
                   blocks := blocks reg @ [s],
                   nbtBlocks := nbtBlocks reg @ [False],
                   randomTickBlocks := randomTickBlocks reg @ [False],
                   FilteringBlocks := FilteringBlocks reg @ [15],
                   LightBlocks := LightBlocks reg @ [0]\<rparr>))))"

text \<open>
  The loop of \<^verbatim>\<open>init\<close> over the states the decoder yields before its first error. Nothing
  recovers from a panic of \<^verbatim>\<open>registerBlockState\<close>, so it ends the loop.
\<close>

fun init :: "blockState list \<Rightarrow> registry \<Rightarrow> panic option \<times> registry" where
  "init [] reg = (None, reg)"
| "init (s # ss) reg =
     (case registerBlockState s reg of
        (Some p, reg') \<Rightarrow> (Some p, reg')
      | (None, reg') \<Rightarrow> init ss reg')"

text \<open>
  The closure assigned to \<^verbatim>\<open>StateToRuntimeID\<close>. Reading a key that the map lacks gives
  the zero value and \<^verbatim>\<open>false\<close>.
\<close>

definition StateToRuntimeID :: "registry \<Rightarrow> string \<Rightarrow> properties \<Rightarrow> panic + (32 word \<times> bool)" where
  "StateToRuntimeID reg name properties =
     (case hashProperties properties of
        Inl p \<Rightarrow> Inl p
      | Inr d \<Rightarrow>
          (case stateRuntimeIDs reg (name, d) of
             Some rid \<Rightarrow> Inr (rid, True)
           | None \<Rightarrow> Inr (0, False)))"

section \<open>Chunk encoding\<close>

text \<open>
  Modelled from the spec: the \<^verbatim>\<open>Encoding\<close> interface and its two implementations are not
  among the sources. The spec names a network and a disk encoding, whose \<^verbatim>\<open>network()\<close>
  flag is 1 and 0.
\<close>

datatype Encoding = NetworkEncoding | DiskEncoding

definition network :: "Encoding \<Rightarrow> byte" where
  "network e = (case e of NetworkEncoding \<Rightarrow> 1 | DiskEncoding \<Rightarrow> 0)"

datatype paletteEncoding = BlockPaletteEncoding | BiomePaletteEncoding

text \<open>
  The fields of \<^verbatim>\<open>PalettedStorage\<close> that the encoder reads. Its declaration is not among
  the sources: \<open>bitsPerIndex\<close> is a \<^verbatim>\<open>uint16\<close> and \<open>indices\<close> a \<^verbatim>\<open>[]uint32\<close> in the
  chunk package this file comes from; the palette's type is left open.
\<close>

record 'p PalettedStorage =
  bitsPerIndex :: "16 word"
  indices :: "32 word list"
  palette :: 'p

record 'p SubChunk =
  storages :: "'p PalettedStorage list"



definition SubChunkVersion :: byte where
  "SubChunkVersion = 9"

text \<open>
  The loop of \<^verbatim>\<open>encodePalettedStorage\<close> that stores the four bytes of \<open>indices[i]\<close> at
  \<open>b[i*4+1 .. i*4+4]\<close>.
\<close>

fun writeIndices :: "nat \<Rightarrow> 32 word list \<Rightarrow> byte list \<Rightarrow> byte list" where
  "writeIndices i [] b = b"
| "writeIndices i (v # vs) b =
     writeIndices (Suc i) vs
       (b[i * 4 + 1 := ucast v, i * 4 + 2 := ucast (drop_bit 8 v),
          i * 4 + 3 := ucast (drop_bit 16 v), i * 4 + 4 := ucast (drop_bit 24 v)])"

text \<open>
  \<open>buf\<close> is the contents of the \<^verbatim>\<open>bytes.Buffer\<close>, returned extended. The parameter
  \<open>encodePalette e p pe\<close> stands for the bytes that \<^verbatim>\<open>e.encodePalette(buf, p, pe)\<close> writes
  to the buffer; its implementations are not among the sources.
\<close>

definition encodePalettedStorage ::
  "(Encoding \<Rightarrow> 'p \<Rightarrow> paletteEncoding \<Rightarrow> byte list) \<Rightarrow> byte list \<Rightarrow> 'p PalettedStorage \<Rightarrow>
   Encoding \<Rightarrow> paletteEncoding \<Rightarrow> byte list" where
  "encodePalettedStorage encodePalette buf storage e pe =
     (let b = replicate (length (indices storage) * 4 + 1) (0 :: byte);
          b = b[0 := ucast (push_bit 1 (bitsPerIndex storage)) OR network e];
          b = writeIndices 0 (indices storage) b;
          buf = buf @ b
      in buf @ encodePalette e (palette storage) pe)"

text \<open>
  The buffer taken from the pool is empty: \<^verbatim>\<open>New\<close> makes an empty one, and every buffer
  is reset before it is put back. \<^verbatim>\<open>ind\<close> and \<^verbatim>\<open>r[0]\<close> are Go ints; the conversion to
  \<^verbatim>\<open>uint8\<close> keeps the low 8 bits of their sum, which a wrap-around of the sum at the
  width of \<^verbatim>\<open>int\<close> does not change, and \<^verbatim>\<open>>>\<close> on a signed int rounds down as
  \<^const>\<open>drop_bit\<close> on \<^typ>\<open>int\<close> does.
\<close>

definition EncodeSubChunk ::
  "(Encoding \<Rightarrow> 'p \<Rightarrow> paletteEncoding \<Rightarrow> byte list) \<Rightarrow> 'p SubChunk \<Rightarrow> Encoding \<Rightarrow> int \<times> int \<Rightarrow>
   int \<Rightarrow> byte list" where
  "EncodeSubChunk encodePalette s e r ind =
     (let buf = [SubChunkVersion, of_nat (length (storages s)), word_of_int (ind + drop_bit 4 (fst r))];
          buf = fold (\<lambda>storage buf. encodePalettedStorage encodePalette buf storage e BlockPaletteEncoding)
                  (storages s) buf
      in buf)"





section \<open>Properties of the chunk encoder\<close>

subsection \<open>The index words\<close>

lemma take_update4:
  assumes "n + 4 \<le> length b"
  shows "take (n + 4) (b[n := a0, n + 1 := a1, n + 2 := a2, n + 3 := a3]) = take n b @ [a0, a1, a2, a3]"
proof (rule nth_equalityI)
  show "length (take (n + 4) (b[n := a0, n + 1 := a1, n + 2 := a2, n + 3 := a3])) =
        length (take n b @ [a0, a1, a2, a3])"
    using assms by simp
next
  fix k assume "k < length (take (n + 4) (b[n := a0, n + 1 := a1, n + 2 := a2, n + 3 := a3]))"
  then have k: "k < n + 4" by simp
  consider "k < n" | "k = n" | "k = n + 1" | "k = n + 2" | "k = n + 3"
    using k by linarith
  then show "take (n + 4) (b[n := a0, n + 1 := a1, n + 2 := a2, n + 3 := a3]) ! k =
             (take n b @ [a0, a1, a2, a3]) ! k"
    using assms by cases (simp_all add: nth_append)
qed

text \<open>
  On an array of the size that \<^verbatim>\<open>encodePalettedStorage\<close> allocates, the loop leaves the
  bytes before position \<open>i * 4 + 1\<close> alone and fills the rest with the four bytes of each
  word, lowest-order byte first.
\<close>

lemma writeIndices_eq:
  "length b = (i + length vs) * 4 + 1 \<Longrightarrow>
   writeIndices i vs b =
     take (i * 4 + 1) b @
     concat (map (\<lambda>v. [ucast v, ucast (drop_bit 8 v), ucast (drop_bit 16 v), ucast (drop_bit 24 v)]) vs)"
proof (induction vs arbitrary: i b)
  case Nil
  then show ?case by simp
next
  case (Cons v vs)
  define n where "n = i * 4 + 1"
  define b' where "b' = b[n := ucast v, n + 1 := ucast (drop_bit 8 v),
          n + 2 := ucast (drop_bit 16 v), n + 3 := ucast (drop_bit 24 v)]"
  have idx: "i * 4 + 2 = n + 1" "i * 4 + 3 = n + 2" "i * 4 + 4 = n + 3"
    by (simp_all add: n_def)
  have step: "writeIndices i (v # vs) b = writeIndices (Suc i) vs b'"
    unfolding b'_def writeIndices.simps idx n_def [symmetric] ..
  have len: "length b' = (Suc i + length vs) * 4 + 1"
    using Cons.prems by (simp add: b'_def)
  have n4: "n + 4 \<le> length b"
    using Cons.prems by (simp add: n_def)
  have n': "Suc i * 4 + 1 = n + 4" by (simp add: n_def)
  have "take (Suc i * 4 + 1) b' =
        take n b @ [ucast v, ucast (drop_bit 8 v), ucast (drop_bit 16 v), ucast (drop_bit 24 v)]"
    unfolding b'_def n' by (rule take_update4 [OF n4])
  then show ?case
    using Cons.IH [OF len] step by (simp add: n_def)
qed

lemma encodePalettedStorage_bytes:
  "encodePalettedStorage pw buf st e pe =
     buf @ [ucast (push_bit 1 (bitsPerIndex st)) OR network e] @
     concat (map (\<lambda>v. [ucast v, ucast (drop_bit 8 v), ucast (drop_bit 16 v), ucast (drop_bit 24 v)])
       (indices st)) @
     pw e (palette st) pe"
proof -
  define b where
    "b = (replicate (length (indices st) * 4 + 1) (0 :: byte))
           [0 := ucast (push_bit 1 (bitsPerIndex st)) OR network e]"
  have "length b = (0 + length (indices st)) * 4 + 1" by (simp add: b_def)
  from writeIndices_eq [OF this]
  have "writeIndices 0 (indices st) b =
        take 1 b @ concat (map (\<lambda>v. [ucast v, ucast (drop_bit 8 v), ucast (drop_bit 16 v),
          ucast (drop_bit 24 v)]) (indices st))"
    by simp
  moreover have "take 1 b = [ucast (push_bit 1 (bitsPerIndex st)) OR network e]"
    by (simp add: b_def take_Suc_conv_app_nth)
  ultimately show ?thesis
    by (simp add: encodePalettedStorage_def Let_def b_def)
qed

text \<open>Encoding several storages into one buffer concatenates their records.\<close>

lemma fold_encodePalettedStorage:
  "fold (\<lambda>st buf. encodePalettedStorage pw buf st e pe) sts buf =
     buf @ concat (map (\<lambda>st. encodePalettedStorage pw [] st e pe) sts)"
proof (induction sts arbitrary: buf)
  case Nil
  show ?case by simp
next
  case (Cons st sts)
  have "encodePalettedStorage pw buf st e pe = buf @ encodePalettedStorage pw [] st e pe"
    by (simp add: encodePalettedStorage_bytes)
  then show ?case by (simp add: Cons.IH)
qed


subsection \<open>The claims on the encoder\<close>

text \<open>
  C4. Whatever the storage, the encoding and the palette kind, the record that
  \<^verbatim>\<open>encodePalettedStorage\<close> appends to the buffer is: one header byte, the low 8 bits of
  \<open>bitsPerIndex << 1\<close> or-ed with the network flag (1 for the network encoding, 0 for
  disk); then, for each word of \<open>indices\<close> in order, its four bytes from the lowest-order
  one to the highest-order one; then the bytes written for the palette.
\<close>

theorem encodePalettedStorage_layout:
  "encodePalettedStorage pw buf st e pe =
     buf @
     [ucast (push_bit 1 (bitsPerIndex st)) OR (case e of NetworkEncoding \<Rightarrow> 1 | DiskEncoding \<Rightarrow> 0)] @
     concat (map (\<lambda>v. [ucast v, ucast (drop_bit 8 v), ucast (drop_bit 16 v), ucast (drop_bit 24 v)])
       (indices st)) @
     pw e (palette st) pe"
  by (simp add: encodePalettedStorage_bytes network_def)

text \<open>
  C5. \<^verbatim>\<open>EncodeSubChunk\<close> writes three header bytes, the version constant 9, the number
  of storages as a byte and the low 8 bits of \<open>ind + (r[0] >> 4)\<close>, and then the record of
  each storage in order, encoded with the block palette kind. This holds for every
  sub-chunk, the non-empty ones among them.
\<close>

theorem EncodeSubChunk_layout:
  "EncodeSubChunk pw s e r ind =
     [SubChunkVersion, of_nat (length (storages s)), word_of_int (ind + drop_bit 4 (fst r))] @
     concat (map (\<lambda>st. encodePalettedStorage pw [] st e BlockPaletteEncoding) (storages s)) \<and>
   SubChunkVersion = 9"
  by (simp add: EncodeSubChunk_def fold_encodePalettedStorage SubChunkVersion_def)

text \<open>
  C6. The claim is that a sub-chunk without storages encodes to no bytes at all, as the
  comment on \<^verbatim>\<open>SerialisedData.SubChunks\<close> says too. \<^verbatim>\<open>EncodeSubChunk\<close> writes the header
  before it looks at the storages: the result has three bytes.
\<close>

theorem EncodeSubChunk_empty:
  "EncodeSubChunk pw \<lparr>storages = []\<rparr> e r ind = [9, 0, word_of_int (ind + drop_bit 4 (fst r))]"
  by (simp add: EncodeSubChunk_def SubChunkVersion_def)


text \<open>
  C10. The record has \<open>1 + 4 * len(indices)\<close> bytes before the palette record, whatever
  \<open>bitsPerIndex\<close>, the encoding and the palette kind are: the bytes written for the
  palette start at that offset and run to the end.
\<close>

theorem encodePalettedStorage_prefix_length:
  "length (encodePalettedStorage pw buf st e pe) =
     length buf + (1 + 4 * length (indices st)) + length (pw e (palette st) pe) \<and>
   take (length buf) (encodePalettedStorage pw buf st e pe) = buf \<and>
   drop (length buf + (1 + 4 * length (indices st))) (encodePalettedStorage pw buf st e pe) =
     pw e (palette st) pe"
proof -
  have "length (concat (map (\<lambda>v. [ucast v, ucast (drop_bit 8 v), ucast (drop_bit 16 v),
    ucast (drop_bit 24 v) :: byte]) vs)) = 4 * length vs" for vs :: "32 word list"
    by (induction vs) simp_all
  then show ?thesis
    by (simp add: encodePalettedStorage_bytes)
qed


section \<open>Properties of the property digest\<close>

subsection \<open>The loop over the keys\<close>


lemma writeProperties_append:
  "writeProperties props (ks1 @ ks2) b =
     (case writeProperties props ks1 b of Inl p \<Rightarrow> Inl p | Inr b' \<Rightarrow> writeProperties props ks2 b')"
  by (induction ks1 arbitrary: b) (simp_all split: option.splits property.splits)

text \<open>What the builder held before the loop stays in front of what the loop writes.\<close>

lemma writeProperties_builder:
  "writeProperties props ks (b @ c) =
     (case writeProperties props ks c of Inl p \<Rightarrow> Inl p | Inr d \<Rightarrow> Inr (b @ d))"
  by (induction ks arbitrary: c) (simp_all split: option.splits property.splits)

lemma map_of_filter_key:
  "P k \<Longrightarrow> map_of (filter (\<lambda>(k', x). P k') props) k = map_of props k"
  by (induction props) auto

lemma writeProperties_filter:
  "\<forall>k \<in> set ks. P k \<Longrightarrow>
   writeProperties (filter (\<lambda>(k', x). P k') props) ks b = writeProperties props ks b"
  by (induction ks arbitrary: b)
    (simp_all add: map_of_filter_key split: option.splits property.splits)

lemma map_fst_filter_key:
  "map fst (filter (\<lambda>(k', x). P k') props) = filter P (map fst props)"
  by (induction props) auto

subsection \<open>The sorted keys\<close>


lemma sort_split_at:
  fixes k :: "'a :: linorder"
  assumes "distinct ks" "k \<in> set ks"
  shows "sort ks = sort (filter (\<lambda>k'. k' < k) ks) @ [k] @ sort (filter (\<lambda>k'. k < k') ks)"
proof (rule sorted_distinct_set_unique)
  show "sorted (sort ks)" by simp
  show "distinct (sort ks)" using assms by simp
  show "sorted (sort (filter (\<lambda>k'. k' < k) ks) @ [k] @ sort (filter (\<lambda>k'. k < k') ks))"
    by (auto simp: sorted_append)
  show "distinct (sort (filter (\<lambda>k'. k' < k) ks) @ [k] @ sort (filter (\<lambda>k'. k < k') ks))"
    using assms by auto
  show "set (sort ks) =
        set (sort (filter (\<lambda>k'. k' < k) ks) @ [k] @ sort (filter (\<lambda>k'. k < k') ks))"
    using assms by auto
qed

subsection \<open>The bytes of an int32\<close>

text \<open>
  Byte \<open>n div 8\<close> of the pattern is the signed value divided by \<open>2 ^ n\<close> (rounding down),
  modulo 256: the digit of its two's-complement representation at that place.
\<close>

lemma ucast_drop_bit_sint:
  fixes v :: "32 word"
  assumes "n \<le> 24"
  shows "(ucast (drop_bit n v) :: byte) = word_of_int (sint v div 2 ^ n)"
proof (rule bit_word_eqI)
  fix m assume "m < LENGTH(8)"
  then have m: "m < 8" by simp
  have "bit (word_of_int (sint v div 2 ^ n) :: byte) m = bit (drop_bit n (sint v)) m"
    using m by (simp add: bit_word_of_int_iff drop_bit_eq_div)
  also have "\<dots> = bit v (n + m)"
    using m assms by (simp add: bit_drop_bit_eq bit_sint_iff)
  finally show "bit (ucast (drop_bit n v) :: byte) m =
      bit (word_of_int (sint v div 2 ^ n) :: byte) m"
    using m by (simp add: bit_ucast_iff bit_drop_bit_eq)
qed

lemma int32Bytes_sint:
  "int32Bytes v = [word_of_int (sint v), word_of_int (sint v div 2 ^ 8),
     word_of_int (sint v div 2 ^ 16), word_of_int (sint v div 2 ^ 24)]"
  using ucast_drop_bit_sint [of 0 v] ucast_drop_bit_sint [of 8 v]
    ucast_drop_bit_sint [of 16 v] ucast_drop_bit_sint [of 24 v]
  by (simp add: int32Bytes_def)

subsection \<open>Values of another type\<close>

lemma writeProperties_invalid:
  "set ks \<subseteq> fst ` set props \<Longrightarrow> k \<in> set ks \<Longrightarrow> map_of props k = Some (POther t) \<Longrightarrow>
   \<exists>k' t'. map_of props k' = Some (POther t') \<and>
     writeProperties props ks b = Inl (InvalidBlockPropertyType t' k')"
proof (induction ks arbitrary: b)
  case Nil
  then show ?case by simp
next
  case (Cons a ks)
  from Cons.prems(1) have "a \<in> fst ` set props" by simp
  then obtain x where x: "map_of props a = Some x"
    by (metis domD dom_map_of_conv_image_fst)
  show ?case
  proof (cases x)
    case (POther t')
    with x show ?thesis by auto
  next
    case (PBool v)
    then have "k \<noteq> a" using x Cons.prems(3) by auto
    then show ?thesis using Cons PBool x by simp
  next
    case (PUint8 v)
    then have "k \<noteq> a" using x Cons.prems(3) by auto
    then show ?thesis using Cons PUint8 x by simp
  next
    case (PInt32 v)
    then have "k \<noteq> a" using x Cons.prems(3) by auto
    then show ?thesis using Cons PInt32 x by simp
  next
    case (PString v)
    then have "k \<noteq> a" using x Cons.prems(3) by auto
    then show ?thesis using Cons PString x by simp
  qed
qed

lemma hashProperties_invalid:
  assumes "map_of props k = Some (POther t)"
  shows "\<exists>k' t'. map_of props k' = Some (POther t') \<and>
     hashProperties (Some props) = Inl (InvalidBlockPropertyType t' k')"
proof -
  have "k \<in> set (sort (map fst props))"
    using assms by (metis domI dom_map_of_conv_image_fst set_map set_sort)
  moreover have "set (sort (map fst props)) \<subseteq> fst ` set props" by simp
  ultimately show ?thesis
    using writeProperties_invalid [OF _ _ assms] by (simp add: hashProperties_def)
qed

subsection \<open>Values of the same shape\<close>









subsection \<open>The claims on the digest\<close>




text \<open>
  C8. For an int32 property \<open>v\<close> under key \<open>k\<close>, the digest of the map is the digest of
  the properties with smaller keys, then four bytes, then the digest of the properties
  with greater keys. The four bytes are the digits, in base 256 and from the lowest place,
  of the two's-complement representation of the signed value \<open>sint v\<close>, negative or not:
  its little-endian bytes.
\<close>

theorem hashProperties_int32:
  assumes "distinct (map fst props)"
    and "map_of props k = Some (PInt32 v)"
    and "hashProperties (Some (filter (\<lambda>(k', x). k' < k) props)) = Inr d1"
    and "hashProperties (Some (filter (\<lambda>(k', x). k < k') props)) = Inr d2"
  shows "hashProperties (Some props) =
     Inr (d1 @ [word_of_int (sint v), word_of_int (sint v div 2 ^ 8),
                word_of_int (sint v div 2 ^ 16), word_of_int (sint v div 2 ^ 24)] @ d2)"
proof -
  let ?lo = "sort (filter (\<lambda>k'. k' < k) (map fst props))"
  let ?hi = "sort (filter (\<lambda>k'. k < k') (map fst props))"
  have k: "k \<in> set (map fst props)"
    using assms(2) by (metis domI dom_map_of_conv_image_fst set_map)
  have keys: "sort (map fst props) = ?lo @ [k] @ ?hi"
    by (rule sort_split_at [OF assms(1) k])
  have lo: "writeProperties props ?lo [] = Inr d1"
    using assms(3) writeProperties_filter [of ?lo "\<lambda>k'. k' < k" props "[]"]
    by (simp add: hashProperties_def map_fst_filter_key)
  have hi: "writeProperties props ?hi [] = Inr d2"
    using assms(4) writeProperties_filter [of ?hi "\<lambda>k'. k < k'" props "[]"]
    by (simp add: hashProperties_def map_fst_filter_key)
  have "writeProperties props ([k] @ ?hi) d1 = writeProperties props ?hi (d1 @ int32Bytes v)"
    using assms(2) by simp
  also have "\<dots> = Inr ((d1 @ int32Bytes v) @ d2)"
    using writeProperties_builder [of props ?hi "d1 @ int32Bytes v" "[]"] hi by simp
  finally have "writeProperties props (?lo @ [k] @ ?hi) [] = Inr (d1 @ int32Bytes v @ d2)"
    using lo by (simp add: writeProperties_append [of props ?lo])
  then show ?thesis
    by (simp add: hashProperties_def keys int32Bytes_sint)
qed

theorem hashProperties_int32_witness:
  "distinct (map fst [(''b'', PInt32 (- 2)), (''c'', PUint8 7), (''a'', PBool True)]) \<and>
   map_of [(''b'', PInt32 (- 2)), (''c'', PUint8 7), (''a'', PBool True)] ''b'' = Some (PInt32 (- 2)) \<and>
   hashProperties (Some [(''a'', PBool True)]) = Inr [1] \<and>
   hashProperties (Some [(''c'', PUint8 7)]) = Inr [7] \<and>
   hashProperties (Some [(''b'', PInt32 (- 2)), (''c'', PUint8 7), (''a'', PBool True)]) =
     Inr [1, 254, 255, 255, 255, 7]"
  using hashProperties_int32 [of "[(''b'', PInt32 (- 2)), (''c'', PUint8 7), (''a'', PBool True)]"
      "''b''" "- 2" "[1]" "[7]"]
  by (simp add: hashProperties_def)


section \<open>Properties of the registry\<close>

subsection \<open>Registering a state whose hash is new\<close>

lemma registerBlockState_fresh:
  assumes "hashProperties (Properties s) = Inr d" and "stateRuntimeIDs reg (Name s, d) = None"
  shows "\<exists>reg'. registerBlockState s reg = (None, reg') \<and>
     blocks reg' = blocks reg @ [s] \<and>
     stateRuntimeIDs reg' = (stateRuntimeIDs reg)((Name s, d) \<mapsto> of_nat (length (blocks reg)))"
  using assms by (simp add: registerBlockState_def Let_def)


text \<open>A second registration under the same name and digest panics and changes nothing.\<close>

lemma registerBlockState_twice:
  assumes "registerBlockState s reg = (None, reg1)"
    and "Name s' = Name s"
    and "hashProperties (Properties s') = hashProperties (Properties s)"
  shows "registerBlockState s' reg1 = (Some (SameStateTwice s'), reg1)"
proof (cases "hashProperties (Properties s)")
  case (Inl p)
  with assms(1) show ?thesis by (simp add: registerBlockState_def)
next
  case (Inr d)
  show ?thesis
  proof (cases "stateRuntimeIDs reg (Name s, d)")
    case None
    from registerBlockState_fresh [OF Inr None] assms(1)
    have "stateRuntimeIDs reg1 (Name s, d) = Some (of_nat (length (blocks reg)))"
      by auto
    with Inr assms(2,3) show ?thesis by (simp add: registerBlockState_def)
  next
    case (Some rid)
    with Inr assms(1) show ?thesis by (simp add: registerBlockState_def)
  qed
qed

text \<open>
  States that differ, here in their version only, can have the same name and digest: the
  second registration panics and \<^verbatim>\<open>init\<close> stops with one block registered.
\<close>

lemma init_same_hash:
  "init [\<lparr>Name = ''minecraft:air'', Properties = Some [], Version = 1\<rparr>,
         \<lparr>Name = ''minecraft:air'', Properties = Some [], Version = 2\<rparr>] (startup [] []) =
   (Some (SameStateTwice \<lparr>Name = ''minecraft:air'', Properties = Some [], Version = 2\<rparr>),
    snd (registerBlockState \<lparr>Name = ''minecraft:air'', Properties = Some [], Version = 1\<rparr>
      (startup [] [])))"
  by (simp add: registerBlockState_def hashProperties_def startup_def)

subsection \<open>Lookups after registrations\<close>






subsection \<open>The claims on the registry\<close>




text \<open>
  C3. When the hash of a state (its name and the digest of its properties) is in the map
  already, \<^verbatim>\<open>registerBlockState\<close> panics with the message for a state registered twice
  and leaves every variable as it was: the number of blocks is the same and the lookup of
  the state still returns the runtime ID the map held.
\<close>

theorem registerBlockState_duplicate:
  assumes "hashProperties (Properties s) = Inr d" and "stateRuntimeIDs reg (Name s, d) = Some rid"
  shows "registerBlockState s reg = (Some (SameStateTwice s), reg) \<and>
     length (blocks (snd (registerBlockState s reg))) = length (blocks reg) \<and>
     StateToRuntimeID (snd (registerBlockState s reg)) (Name s) (Properties s) = Inr (rid, True)"
  using assms by (simp add: registerBlockState_def StateToRuntimeID_def)

theorem registerBlockState_duplicate_witness:
  "fst (registerBlockState \<lparr>Name = ''minecraft:air'', Properties = Some [], Version = 1\<rparr> (startup [] [])) = None \<and>
   registerBlockState \<lparr>Name = ''minecraft:air'', Properties = None, Version = 2\<rparr>
     (snd (registerBlockState \<lparr>Name = ''minecraft:air'', Properties = Some [], Version = 1\<rparr> (startup [] []))) =
     (Some (SameStateTwice \<lparr>Name = ''minecraft:air'', Properties = None, Version = 2\<rparr>),
      snd (registerBlockState \<lparr>Name = ''minecraft:air'', Properties = Some [], Version = 1\<rparr> (startup [] []))) \<and>
   length (blocks (snd (registerBlockState \<lparr>Name = ''minecraft:air'', Properties = Some [], Version = 1\<rparr> (startup [] [])))) = 1 \<and>
   StateToRuntimeID
     (snd (registerBlockState \<lparr>Name = ''minecraft:air'', Properties = None, Version = 2\<rparr>
       (snd (registerBlockState \<lparr>Name = ''minecraft:air'', Properties = Some [], Version = 1\<rparr> (startup [] [])))))
     ''minecraft:air'' (Some []) = Inr (0, True)"
proof -
  let ?reg = "snd (registerBlockState \<lparr>Name = ''minecraft:air'', Properties = Some [], Version = 1\<rparr> (startup [] []))"
  let ?s = "\<lparr>Name = ''minecraft:air'', Properties = None, Version = 2\<rparr>"
  have h: "hashProperties (Properties ?s) = Inr []" by (simp add: hashProperties_def)
  have m: "stateRuntimeIDs ?reg (Name ?s, []) = Some 0"
    by (simp add: registerBlockState_def hashProperties_def startup_def)
  have f: "fst (registerBlockState \<lparr>Name = ''minecraft:air'', Properties = Some [], Version = 1\<rparr> (startup [] [])) = None"
    and l: "length (blocks ?reg) = 1"
    by (simp_all add: registerBlockState_def hashProperties_def startup_def)
  from registerBlockState_duplicate [OF h m]
  have a: "registerBlockState ?s ?reg = (Some (SameStateTwice ?s), ?reg)"
    by blast
  have "StateToRuntimeID ?reg ''minecraft:air'' (Some []) = Inr (0, True)"
    using m by (simp add: StateToRuntimeID_def hashProperties_def)
  then have "StateToRuntimeID (snd (registerBlockState ?s ?reg)) ''minecraft:air'' (Some []) = Inr (0, True)"
    by (simp only: a snd_conv)
  with a f l show ?thesis by blast
qed

text \<open>
  C9, as the claim states it, fails at the boundary of the registry build: nothing between
  \<^verbatim>\<open>hashProperties\<close> and \<^verbatim>\<open>init\<close> recovers from the panic or returns an error value, so
  \<^verbatim>\<open>init\<close> on a state with an \<^verbatim>\<open>int64\<close> property ends in the panic itself.
\<close>

theorem init_panic_counterexample:
  "init [\<lparr>Name = ''minecraft:wheat'', Properties = Some [(''growth'', POther ''int64'')], Version = 1\<rparr>]
     (startup [] []) =
   (Some (InvalidBlockPropertyType ''int64'' ''growth''), startup [] [])"
  by (simp add: registerBlockState_def hashProperties_def)

text \<open>
  C9, amended. When a property map holds a value of a type other than bool, uint8, int32
  and string, \<^verbatim>\<open>hashProperties\<close> panics, naming a key with such a value and its type; it
  returns no digest. The panic passes through \<^verbatim>\<open>registerBlockState\<close>, \<^verbatim>\<open>init\<close> and
  \<^verbatim>\<open>StateToRuntimeID\<close> unchanged, and leaves the registry's variables as they were.
\<close>

theorem invalid_property_panics:
  assumes "map_of props k = Some (POther t)" and "Properties s = Some props"
  shows "\<exists>k' t'. map_of props k' = Some (POther t') \<and>
     hashProperties (Properties s) = Inl (InvalidBlockPropertyType t' k') \<and>
     registerBlockState s reg = (Some (InvalidBlockPropertyType t' k'), reg) \<and>
     init (s # ss) reg = (Some (InvalidBlockPropertyType t' k'), reg) \<and>
     StateToRuntimeID reg name (Properties s) = Inl (InvalidBlockPropertyType t' k')"
proof -
  from hashProperties_invalid [OF assms(1)] obtain k' t' where
    "map_of props k' = Some (POther t')"
    "hashProperties (Some props) = Inl (InvalidBlockPropertyType t' k')"
    by blast
  then show ?thesis
    using assms(2) by (auto simp: registerBlockState_def StateToRuntimeID_def)
qed

theorem invalid_property_panics_witness:
  "map_of [(''age'', POther ''int64''), (''b'', PBool True)] ''age'' = Some (POther ''int64'') \<and>
   hashProperties (Some [(''age'', POther ''int64''), (''b'', PBool True)]) = Inl (InvalidBlockPropertyType ''int64'' ''age'') \<and>
   registerBlockState \<lparr>Name = ''minecraft:wheat'', Properties = Some [(''age'', POther ''int64''), (''b'', PBool True)], Version = 1\<rparr> (startup [] []) =
     (Some (InvalidBlockPropertyType ''int64'' ''age''), startup [] [])"
  using invalid_property_panics [of "[(''age'', POther ''int64''), (''b'', PBool True)]" "''age''" "''int64''"
     "\<lparr>Name = ''minecraft:wheat'', Properties = Some [(''age'', POther ''int64''), (''b'', PBool True)], Version = 1\<rparr>" "startup [] []" "[]" "''x''"]
  by (simp add: hashProperties_def registerBlockState_def)

end
